theory Spec2Isabelle
  imports Main
begin

section \<open>Strings\<close>

text \<open>
  A string of the program is a \<^typ>\<open>string\<close>. The development covers ASCII text
  (Salesforce API names and metadata are ASCII): the letters \<open>A\<close> to \<open>Z\<close> and \<open>a\<close> to
  \<open>z\<close> are the only characters with a case, and a character outside ASCII is neither a
  letter nor white space.
\<close>

definition charCode :: "char \<Rightarrow> nat" where
  "charCode c = of_char c"

definition toLowerChar :: "char \<Rightarrow> char" where
  "toLowerChar c =
     (if 65 \<le> charCode c \<and> charCode c \<le> 90 then char_of (charCode c + 32) else c)"

definition toUpperChar :: "char \<Rightarrow> char" where
  "toUpperChar c =
     (if 97 \<le> charCode c \<and> charCode c \<le> 122 then char_of (charCode c - 32) else c)"

text \<open>\<^verbatim>\<open>String.prototype.toLowerCase\<close>.\<close>

definition toLowerCase :: "string \<Rightarrow> string" where
  "toLowerCase s = map toLowerChar s"

text \<open>\<^verbatim>\<open>String.prototype.includes\<close>: the needle is a contiguous part of the text.\<close>

definition includes_str :: "string \<Rightarrow> string \<Rightarrow> bool" where
  "includes_str text needle =
     (\<exists>i \<in> set [0..<Suc (length text)]. take (length needle) (drop i text) = needle)"

text \<open>\<^verbatim>\<open>Array.prototype.join\<close> on strings.\<close>

fun join :: "string \<Rightarrow> string list \<Rightarrow> string" where
  "join sep [] = []"
| "join sep [x] = x"
| "join sep (x # y # ys) = x @ sep @ join sep (y # ys)"

section \<open>The regular expressions built by the usage matcher\<close>

text \<open>
  \<^verbatim>\<open>containsField\<close> builds the pattern \<^verbatim>\<open>\b\<close>\<open>esc\<close>\<^verbatim>\<open>\b\<close> with the flag \<^verbatim>\<open>i\<close>, where
  \<open>esc\<close> is the field name with a backslash put before each of
  \<^verbatim>\<open>. * + ? ^ $ { } ( ) | [ ] \\<close>. The fragment of the pattern language modelled here is
  the one such patterns live in: the assertion \<^verbatim>\<open>\b\<close>, an escaped syntax character, and a
  character that stands for itself. Any other pattern is outside the fragment
  (\<open>None\<close>).
\<close>

definition backslash :: char where
  "backslash = CHR 0x5C"

definition syntaxChars :: "char set" where
  "syntaxChars = set ''.*+?^${}()|[]'' \<union> {backslash}"

text \<open>\<^verbatim>\<open>fieldName.replace(/[.*+?^${}()|[\]\\]/g, "\\$&")\<close>\<close>

definition escapeRegExp :: "string \<Rightarrow> string" where
  "escapeRegExp s = concat (map (\<lambda>c. if c \<in> syntaxChars then [backslash, c] else [c]) s)"

datatype atom = WordBoundary | Literal char

fun RegExp :: "string \<Rightarrow> atom list option" where
  "RegExp [] = Some []"
| "RegExp [c] = (if c \<in> syntaxChars then None else Some [Literal c])"
| "RegExp (c # d # rest) =
     (if c = backslash then
        (if d = CHR ''b'' then map_option (\<lambda>as. WordBoundary # as) (RegExp rest)
         else if d \<in> syntaxChars then map_option (\<lambda>as. Literal d # as) (RegExp rest)
         else None)
      else if c \<in> syntaxChars then None
      else map_option (\<lambda>as. Literal c # as) (RegExp (d # rest)))"

text \<open>
  Word characters of \<^verbatim>\<open>\b\<close> (no \<^verbatim>\<open>u\<close> flag): letters, digits and the underscore.
\<close>

definition isWordChar :: "char \<Rightarrow> bool" where
  "isWordChar c =
     ((97 \<le> charCode c \<and> charCode c \<le> 122) \<or> (65 \<le> charCode c \<and> charCode c \<le> 90)
      \<or> (48 \<le> charCode c \<and> charCode c \<le> 57) \<or> charCode c = 95)"

text \<open>
  \<open>wordBefore s i\<close> and \<open>wordAt s i\<close>: is the character left, resp. right, of
  position \<open>i\<close> a word character; there is none beyond either end of the input.
\<close>

definition wordBefore :: "string \<Rightarrow> nat \<Rightarrow> bool" where
  "wordBefore s i = (0 < i \<and> i \<le> length s \<and> isWordChar (s ! (i - 1)))"

definition wordAt :: "string \<Rightarrow> nat \<Rightarrow> bool" where
  "wordAt s i = (i < length s \<and> isWordChar (s ! i))"

text \<open>
  Matching at a position. With the flag \<^verbatim>\<open>i\<close> two characters match when they have the
  same canonical (upper-case) form.
\<close>

fun matchAt :: "atom list \<Rightarrow> string \<Rightarrow> nat \<Rightarrow> bool" where
  "matchAt [] s i = True"
| "matchAt (WordBoundary # as) s i = (wordBefore s i \<noteq> wordAt s i \<and> matchAt as s i)"
| "matchAt (Literal c # as) s i =
     (i < length s \<and> toUpperChar (s ! i) = toUpperChar c \<and> matchAt as s (Suc i))"

text \<open>\<^verbatim>\<open>re.test(text)\<close>: a match starting at some position of the text.\<close>

definition test :: "atom list \<Rightarrow> string \<Rightarrow> bool" where
  "test re s = (\<exists>i \<in> set [0..<Suc (length s)]. matchAt re s i)"

section \<open>The usage matcher\<close>

text \<open>
  \<^verbatim>\<open>containsField(text, fieldName)\<close> with its default options (\<^verbatim>\<open>ignoreCase\<close> and
  \<^verbatim>\<open>wholeWord\<close> both true), which is how every caller uses it. \<open>None\<close> is the
  \<^verbatim>\<open>SyntaxError\<close> of the \<^verbatim>\<open>RegExp\<close> constructor.
\<close>

definition containsField :: "string \<Rightarrow> string \<Rightarrow> bool option" where
  "containsField text fieldName =
     (if text = [] \<or> fieldName = [] then Some False
      else (let esc = escapeRegExp fieldName in
            case RegExp ([backslash, CHR ''b''] @ esc @ [backslash, CHR ''b'']) of
              None \<Rightarrow> None
            | Some re \<Rightarrow> Some (test re text)))"


section \<open>The reference collector\<close>

text \<open>
  A \<^verbatim>\<open>TextMap\<close> (artifact name to text) in the order \<^verbatim>\<open>Object.keys\<close> enumerates it.
  The keys are file names, so they are enumerated in insertion order.
\<close>

type_synonym TextMap = "(string \<times> string) list"
type_synonym StringMap = "(string \<times> string) list"

definition searchUsage :: "TextMap \<Rightarrow> string \<Rightarrow> string" where
  "searchUsage contentMap needle =
     join ''; '' (map fst (filter (\<lambda>(name, text). containsField text needle = Some True) contentMap))"

text \<open>
  One loop of \<^verbatim>\<open>collectReferences\<close>:
  \<^verbatim>\<open>for (const k of Object.keys(m)) if (containsField(m[k], f)) refs.push(label + k)\<close>
\<close>

definition labelledRefs :: "string \<Rightarrow> TextMap \<Rightarrow> string \<Rightarrow> string list" where
  "labelledRefs label m f =
     map (\<lambda>k. label @ k)
       (filter (\<lambda>k. case map_of m k of None \<Rightarrow> False | Some text \<Rightarrow> containsField text f = Some True)
          (map fst m))"

definition optionalRefs :: "string \<Rightarrow> TextMap option \<Rightarrow> string \<Rightarrow> string list" where
  "optionalRefs label m f = (case m of None \<Rightarrow> [] | Some mm \<Rightarrow> labelledRefs label mm f)"

definition newline :: char where
  "newline = CHR 0x0A"

text \<open>
  \<^verbatim>\<open>collectReferences\<close>; the last four arguments are the optional properties
  \<^verbatim>\<open>lwc\<close>, \<^verbatim>\<open>aura\<close>, \<^verbatim>\<open>profiles\<close> and \<^verbatim>\<open>permsets\<close> of its \<^verbatim>\<open>extras\<close> argument.
\<close>

definition collectReferences ::
  "TextMap \<Rightarrow> TextMap \<Rightarrow> TextMap \<Rightarrow> TextMap \<Rightarrow> TextMap \<Rightarrow> TextMap \<Rightarrow> string
     \<Rightarrow> TextMap option \<Rightarrow> TextMap option \<Rightarrow> TextMap option \<Rightarrow> TextMap option \<Rightarrow> string" where
  "collectReferences apexM flowM vrM dupM reportM emailM fieldName lwcM auraM profilesM permsetsM =
     join [CHR '';'', newline]
       (labelledRefs ''Apex: '' apexM fieldName
        @ labelledRefs ''Flow: '' flowM fieldName
        @ labelledRefs ''ValidationRule: '' vrM fieldName
        @ labelledRefs ''DuplicateRule: '' dupM fieldName
        @ labelledRefs ''Report: '' reportM fieldName
        @ labelledRefs ''EmailTemplate: '' emailM fieldName
        @ optionalRefs ''LWC: '' lwcM fieldName
        @ optionalRefs ''Aura: '' auraM fieldName
        @ optionalRefs ''Profile: '' profilesM fieldName
        @ optionalRefs ''PermSet: '' permsetsM fieldName)"

section \<open>Result rows and corpora\<close>

record ResultRow =
  FieldName :: string
  FieldLabel :: string
  Description :: string
  FieldType :: string
  Formula :: string
  FieldLength :: string
  LookupRef :: string
  Required :: string
  HistoryTracking :: string
  PicklistValues :: string
  ControllingField :: string
  LastModifiedDate :: string
  Layouts :: string
  Flexipages :: string
  RecordTypes :: string
  References :: string
  ProfilesAndPermSets :: string

text \<open>
  The \<^verbatim>\<open>maps\<close> argument of \<^verbatim>\<open>mergeStandardFields\<close>; \<^verbatim>\<open>processFields\<close> takes the same
  with \<^verbatim>\<open>lastModified\<close> added.
\<close>

record maps =
  apex :: TextMap
  flow :: TextMap
  vr :: TextMap
  dup :: TextMap
  report :: TextMap
  email :: TextMap
  layout :: TextMap
  recordType :: TextMap
  flexipage :: TextMap
  lwc :: "TextMap option"
  aura :: "TextMap option"
  profiles :: "TextMap option"
  permsets :: "TextMap option"

record fieldsMaps = maps +
  lastModified :: StringMap

text \<open>
  The access-control column, the same code in \<^verbatim>\<open>processFields\<close> and in
  \<^verbatim>\<open>mergeStandardFields\<close>:
  \<^verbatim>\<open>Object.keys(m || {}).filter(k => m && m[k] && m[k].includes(name)).map(k => label + k)\<close>
\<close>

definition accessRefs :: "string \<Rightarrow> TextMap option \<Rightarrow> string \<Rightarrow> string list" where
  "accessRefs label m name =
     (case m of
        None \<Rightarrow> []
      | Some mm \<Rightarrow>
          map (\<lambda>k. label @ k)
            (filter (\<lambda>k. case map_of mm k of None \<Rightarrow> False
                          | Some text \<Rightarrow> text \<noteq> [] \<and> includes_str text name)
               (map fst mm)))"

definition profilesAndPermSets :: "'a maps_scheme \<Rightarrow> string \<Rightarrow> string" where
  "profilesAndPermSets m name =
     (let profilesRefs = accessRefs ''Profile: '' (profiles m) name;
          permsetRefs = accessRefs ''PermSet: '' (permsets m) name
      in join [CHR '';'', newline] (profilesRefs @ permsetRefs))"

section \<open>The remote field merger\<close>

record fieldDef =
  QualifiedApiName :: string
  DataType :: string

text \<open>The row \<^verbatim>\<open>mergeStandardFields\<close> pushes for a field definition it keeps.\<close>

definition standardRow :: "'a maps_scheme \<Rightarrow> fieldDef \<Rightarrow> ResultRow" where
  "standardRow m def =
     (let name = QualifiedApiName def;
          layoutsUsed = searchUsage (layout m) name;
          recordTypesUsed = searchUsage (recordType m) name;
          flexipagesUsed = searchUsage (flexipage m) name;
          references = collectReferences (apex m) (flow m) (vr m) (dup m) (report m) (email m) name
                         (lwc m) (aura m) (profiles m) (permsets m)
      in \<lparr> FieldName = name, FieldLabel = [], Description = [], FieldType = DataType def,
           Formula = [], FieldLength = [], LookupRef = [], Required = ''FALSE'',
           HistoryTracking = [], PicklistValues = [], ControllingField = [],
           LastModifiedDate = [], Layouts = layoutsUsed, Flexipages = flexipagesUsed,
           RecordTypes = recordTypesUsed, References = references,
           ProfilesAndPermSets = profilesAndPermSets m name \<rparr>)"

text \<open>
  The loop over \<^verbatim>\<open>fieldDefs\<close>: \<open>existingNames\<close> is the set built before the loop,
  \<open>merged\<close> the array the rows are pushed to.
\<close>

fun mergeLoop :: "string set \<Rightarrow> 'a maps_scheme \<Rightarrow> fieldDef list \<Rightarrow> ResultRow list \<Rightarrow> ResultRow list" where
  "mergeLoop existingNames m [] merged = merged"
| "mergeLoop existingNames m (def # defs) merged =
     (let name = QualifiedApiName def in
      if name = [] then mergeLoop existingNames m defs merged
      else if toLowerCase name \<in> existingNames then mergeLoop existingNames m defs merged
      else mergeLoop existingNames m defs (merged @ [standardRow m def]))"

definition mergeStandardFields :: "ResultRow list \<Rightarrow> fieldDef list \<Rightarrow> 'a maps_scheme \<Rightarrow> ResultRow list" where
  "mergeStandardFields existingRows fieldDefs m =
     (let existingNames = set (map (\<lambda>r. toLowerCase (FieldName r)) existingRows)
      in mergeLoop existingNames m fieldDefs existingRows)"


section \<open>Parsed field documents\<close>

text \<open>
  What \<^verbatim>\<open>parseStringPromise(xmlText, { explicitArray: true })\<close> returns. An element without
  child elements and attributes is its text (\<open>XText\<close>, the empty string for an empty
  element); any other element is an object (\<open>XElem\<close>) that has, for each name of a child
  element, the array of the children with that name. The document is an object with one
  property, the root element's name; \<open>None\<close> is the \<^verbatim>\<open>null\<close> of an empty document.
  Attributes and mixed text are left out: the program reads no property by their keys.
\<close>

datatype xnode = XText string | XElem "(string \<times> xnode list) list"

type_synonym xdoc = "(string \<times> xnode) option"

text \<open>\<^verbatim>\<open>node?.key\<close>; \<open>None\<close> is \<^verbatim>\<open>undefined\<close>.\<close>

definition getProp :: "xnode option \<Rightarrow> string \<Rightarrow> xnode list option" where
  "getProp node key =
     (case node of
        None \<Rightarrow> None
      | Some (XText s) \<Rightarrow> None
      | Some (XElem kvs) \<Rightarrow> map_of kvs key)"

text \<open>\<^verbatim>\<open>arr?.[0]\<close>\<close>

definition elem0 :: "xnode list option \<Rightarrow> xnode option" where
  "elem0 arr = (case arr of None \<Rightarrow> None | Some [] \<Rightarrow> None | Some (x # xs) \<Rightarrow> Some x)"

text \<open>Truthiness: \<^verbatim>\<open>undefined\<close> and the empty string are falsy, an object is truthy.\<close>

definition truthy :: "xnode option \<Rightarrow> bool" where
  "truthy v = (case v of None \<Rightarrow> False | Some (XText s) \<Rightarrow> s \<noteq> [] | Some (XElem kvs) \<Rightarrow> True)"

text \<open>\<^verbatim>\<open>String(v)\<close>\<close>

definition String_js :: "xnode option \<Rightarrow> string" where
  "String_js v =
     (case v of None \<Rightarrow> ''undefined'' | Some (XText s) \<Rightarrow> s | Some (XElem kvs) \<Rightarrow> ''[object Object]'')"

text \<open>\<^verbatim>\<open>String.prototype.trim\<close>\<close>

definition isWhiteSpace :: "char \<Rightarrow> bool" where
  "isWhiteSpace c = (charCode c = 32 \<or> (9 \<le> charCode c \<and> charCode c \<le> 13))"

definition trim :: "string \<Rightarrow> string" where
  "trim s = rev (dropWhile isWhiteSpace (rev (dropWhile isWhiteSpace s)))"

section \<open>The field descriptor parser\<close>

datatype error =
    FieldsFolderNotFound string
  | NoFieldFilesFound string
  | ReadError
  | ParseError
  | TypeError

definition bindE :: "error + 'a \<Rightarrow> ('a \<Rightarrow> error + 'b) \<Rightarrow> error + 'b" where
  "bindE r f = (case r of Inl e \<Rightarrow> Inl e | Inr x \<Rightarrow> f x)"

text \<open>
  \<^verbatim>\<open>readXmlFieldValue(xml, [rootKey, key])\<close>, the form of every call. \<open>stringify\<close> is
  \<^verbatim>\<open>JSON.stringify\<close>. The operator \<^verbatim>\<open>in\<close> throws a \<^verbatim>\<open>TypeError\<close> on a non-empty string.
  The value reached under \<open>key\<close> is an array, so the function's last line, for a
  value that is none, is not reached.
\<close>

definition readXmlFieldValue :: "(xnode \<Rightarrow> string) \<Rightarrow> xdoc \<Rightarrow> string \<Rightarrow> string \<Rightarrow> error + string" where
  "readXmlFieldValue stringify xml rootKey key =
     (case xml of
        None \<Rightarrow> Inr []
      | Some (rootName, node) \<Rightarrow>
          if rootName \<noteq> rootKey then Inr []
          else (case node of
                  XText s \<Rightarrow> if s = [] then Inr [] else Inl TypeError
                | XElem kvs \<Rightarrow>
                    (case map_of kvs key of
                       None \<Rightarrow> Inr []
                     | Some [] \<Rightarrow> Inr []
                     | Some (XText v # rest) \<Rightarrow> Inr v
                     | Some (XElem c # rest) \<Rightarrow> Inr (stringify (XElem c)))))"

record picklist =
  values_str :: string
  controlling :: string

definition getPicklistValues :: "xnode option \<Rightarrow> picklist" where
  "getPicklistValues customField =
     (let vs = elem0 (getProp customField ''valueSet'') in
      if \<not> truthy vs then \<lparr> values_str = [], controlling = [] \<rparr>
      else
        let defn = elem0 (getProp vs ''valueSetDefinition'');
            controlling = (case getProp vs ''controllingField'' of
                             None \<Rightarrow> []
                           | Some arr \<Rightarrow> String_js (elem0 (Some arr)));
            vals = getProp defn ''value'';
            names = (case vals of
                       None \<Rightarrow> []
                     | Some vl \<Rightarrow>
                         filter (\<lambda>n. n \<noteq> [])
                           (map (\<lambda>v. case elem0 (getProp (Some v) ''fullName'') of
                                        None \<Rightarrow> []
                                      | Some x \<Rightarrow> String_js (Some x)) vl))
        in if names \<noteq> [] then \<lparr> values_str = join '', '' names, controlling = controlling \<rparr>
           else
             let vsetName = elem0 (getProp vs ''valueSetName'') in
             if truthy vsetName then \<lparr> values_str = String_js vsetName, controlling = controlling \<rparr>
             else \<lparr> values_str = [], controlling = controlling \<rparr>)"

definition getFieldLength :: "xnode option \<Rightarrow> string \<Rightarrow> string" where
  "getFieldLength customField fieldType =
     (let t = trim fieldType in
      if t = ''Text'' \<or> t = ''Html'' \<or> t = ''LongTextArea'' then
        (let len = elem0 (getProp customField ''length'') in
         if truthy len then String_js len else [])
      else if t = ''Number'' \<or> t = ''Currency'' \<or> t = ''Currency '' then
        (let precision = elem0 (getProp customField ''precision'');
             scale = elem0 (getProp customField ''scale'');
             p = (if truthy precision then String_js precision else []);
             s = (if truthy scale then String_js scale else [])
         in join '', '' (filter (\<lambda>x. x \<noteq> []) [p, s]))
      else [])"

section \<open>The result assembler\<close>

text \<open>\<^verbatim>\<open>xml?.CustomField\<close>\<close>

definition customFieldOf :: "xdoc \<Rightarrow> xnode option" where
  "customFieldOf xml =
     (case xml of
        None \<Rightarrow> None
      | Some (rootName, node) \<Rightarrow> if rootName = ''CustomField'' then Some node else None)"

text \<open>
  The body of the loop of \<^verbatim>\<open>processFields\<close> after the test \<^verbatim>\<open>if (!cf) continue\<close>: the row
  pushed for one document, or the exception thrown on the way.
\<close>

definition fieldRow :: "(xnode \<Rightarrow> string) \<Rightarrow> 'a fieldsMaps_scheme \<Rightarrow> xdoc \<Rightarrow> xnode option \<Rightarrow> error + ResultRow" where
  "fieldRow stringify m xml cf =
     bindE (readXmlFieldValue stringify xml ''CustomField'' ''fullName'') (\<lambda>fieldName.
     bindE (readXmlFieldValue stringify xml ''CustomField'' ''description'') (\<lambda>fieldDesc.
     bindE (readXmlFieldValue stringify xml ''CustomField'' ''trackHistory'') (\<lambda>fieldTrack.
     bindE (readXmlFieldValue stringify xml ''CustomField'' ''label'') (\<lambda>fieldLabel.
     bindE (readXmlFieldValue stringify xml ''CustomField'' ''type'') (\<lambda>fieldType.
     bindE (readXmlFieldValue stringify xml ''CustomField'' ''formula'') (\<lambda>fieldFormula.
     let fieldLength = getFieldLength cf fieldType in
     bindE (if fieldType = ''Lookup''
            then readXmlFieldValue stringify xml ''CustomField'' ''referenceTo''
            else Inr []) (\<lambda>lookupRef.
     bindE (readXmlFieldValue stringify xml ''CustomField'' ''required'') (\<lambda>required.
     let requiredRaw = toLowerCase required;
         isRequired = (if requiredRaw = ''true'' then ''TRUE'' else ''FALSE'');
         pl = getPicklistValues cf;
         lastMod = (case map_of (lastModified m) (toLowerCase fieldName) of
                      None \<Rightarrow> [] | Some d \<Rightarrow> d);
         layoutsUsed = searchUsage (layout m) fieldName;
         recordTypesUsed = searchUsage (recordType m) fieldName;
         flexipagesUsed = searchUsage (flexipage m) fieldName;
         references = collectReferences (apex m) (flow m) (vr m) (dup m) (report m) (email m)
                        fieldName (lwc m) (aura m) None None
     in Inr \<lparr> FieldName = fieldName, FieldLabel = fieldLabel, Description = fieldDesc,
               FieldType = fieldType, Formula = fieldFormula, FieldLength = fieldLength,
               LookupRef = lookupRef, Required = isRequired, HistoryTracking = fieldTrack,
               PicklistValues = values_str pl, ControllingField = controlling pl,
               LastModifiedDate = lastMod, Layouts = layoutsUsed, Flexipages = flexipagesUsed,
               RecordTypes = recordTypesUsed, References = references,
               ProfilesAndPermSets = profilesAndPermSets m fieldName \<rparr>))))))))"

text \<open>
  A discovered field file, as the loop meets it: \<^verbatim>\<open>fsp.readFile\<close> fails, or
  \<^verbatim>\<open>parseStringPromise\<close> rejects the text, or it returns the parsed document.
\<close>

datatype fieldFile = Unreadable | Malformed | Parsed xdoc

text \<open>
  The loop over \<^verbatim>\<open>fieldFiles\<close>. The state is the array \<open>results\<close> and the number of
  files read so far; the result is the rows or the exception that ended the loop.
\<close>

fun processLoop ::
  "(xnode \<Rightarrow> string) \<Rightarrow> 'a fieldsMaps_scheme \<Rightarrow> fieldFile list \<Rightarrow> ResultRow list \<Rightarrow> nat
     \<Rightarrow> (error + ResultRow list) \<times> nat" where
  "processLoop stringify m [] results reads = (Inr results, reads)"
| "processLoop stringify m (Unreadable # files) results reads = (Inl ReadError, Suc reads)"
| "processLoop stringify m (Malformed # files) results reads = (Inl ParseError, Suc reads)"
| "processLoop stringify m (Parsed xml # files) results reads =
     (let cf = customFieldOf xml in
      if \<not> truthy cf then processLoop stringify m files results (Suc reads)
      else (case fieldRow stringify m xml cf of
              Inl e \<Rightarrow> (Inl e, Suc reads)
            | Inr row \<Rightarrow> processLoop stringify m files (results @ [row]) (Suc reads)))"

text \<open>
  \<^verbatim>\<open>processFields\<close>. \<open>folderExists\<close> is \<^verbatim>\<open>fs.existsSync(objectFieldsPath)\<close> and
  \<open>fieldFiles\<close> the files the glob finds under the folder. The second component of
  the result is the number of field files read.
\<close>

definition processFields ::
  "(xnode \<Rightarrow> string) \<Rightarrow> bool \<Rightarrow> string \<Rightarrow> fieldFile list \<Rightarrow> 'a fieldsMaps_scheme
     \<Rightarrow> (error + ResultRow list) \<times> nat" where
  "processFields stringify folderExists objectFieldsPath fieldFiles m =
     (if \<not> folderExists then (Inl (FieldsFolderNotFound objectFieldsPath), 0)
      else if fieldFiles = [] then (Inl (NoFieldFilesFound objectFieldsPath), 0)
      else processLoop stringify m fieldFiles [] 0)"


section \<open>Notions the specification is stated in\<close>

subsection \<open>Whole-word occurrence\<close>

text \<open>
  A word boundary lies between a left part and a right part of a text when exactly one of
  the two characters at the cut is a word character (no character counts as none).
\<close>

definition wordBoundary :: "string \<Rightarrow> string \<Rightarrow> bool" where
  "wordBoundary l r = ((l \<noteq> [] \<and> isWordChar (last l)) \<noteq> (r \<noteq> [] \<and> isWordChar (hd r)))"

text \<open>
  The identifier occurs in the text, ignoring case, with a word boundary on both sides
  of the occurrence.
\<close>

definition occursAsWholeWord :: "string \<Rightarrow> string \<Rightarrow> bool" where
  "occursAsWholeWord text ident =
     (\<exists>pre mid post. text = pre @ mid @ post \<and> toLowerCase mid = toLowerCase ident
        \<and> wordBoundary pre (mid @ post) \<and> wordBoundary (pre @ mid) post)"

subsection \<open>Attributes of a field document\<close>

definition childElems :: "string \<Rightarrow> xnode \<Rightarrow> xnode list" where
  "childElems name n =
     (case n of XText s \<Rightarrow> [] | XElem kvs \<Rightarrow> (case map_of kvs name of None \<Rightarrow> [] | Some xs \<Rightarrow> xs))"

definition firstElem :: "string \<Rightarrow> xnode \<Rightarrow> xnode option" where
  "firstElem name n = (case childElems name n of [] \<Rightarrow> None | x # xs \<Rightarrow> Some x)"

definition textOf :: "xnode \<Rightarrow> string" where
  "textOf n = (case n of XText s \<Rightarrow> s | XElem kvs \<Rightarrow> ''[object Object]'')"

text \<open>The raw attribute of a field, empty if absent.\<close>

definition attrText :: "string \<Rightarrow> xnode option \<Rightarrow> string" where
  "attrText name cf =
     (case cf of
        None \<Rightarrow> []
      | Some n \<Rightarrow> (case firstElem name n of None \<Rightarrow> [] | Some x \<Rightarrow> textOf x))"

text \<open>The literal list of value names under the value-set definition of a value set.\<close>

definition valueNames :: "xnode \<Rightarrow> string list" where
  "valueNames vs =
     (case firstElem ''valueSetDefinition'' vs of
        None \<Rightarrow> []
      | Some d \<Rightarrow>
          concat (map (\<lambda>v. case firstElem ''fullName'' v of
                              None \<Rightarrow> []
                            | Some x \<Rightarrow> if textOf x = [] then [] else [textOf x])
                    (childElems ''value'' d)))"

text \<open>The reference to a shared value set, by name.\<close>

definition valueSetNameRef :: "xnode \<Rightarrow> string option" where
  "valueSetNameRef vs = map_option textOf (firstElem ''valueSetName'' vs)"

text \<open>The controlling field of a value set: its attribute when present, else empty.\<close>

definition controllingFieldOf :: "xnode \<Rightarrow> string" where
  "controllingFieldOf vs =
     (case vs of
        XText s \<Rightarrow> []
      | XElem kvs \<Rightarrow>
          (case map_of kvs ''controllingField'' of
             None \<Rightarrow> []
           | Some [] \<Rightarrow> ''undefined''
           | Some (x # xs) \<Rightarrow> textOf x))"

subsection \<open>Remote pairs and row sets\<close>

text \<open>A remote pair is kept when its name is not empty and not among the local names.\<close>

definition kept :: "string set \<Rightarrow> fieldDef \<Rightarrow> bool" where
  "kept existingNames def =
     (QualifiedApiName def \<noteq> [] \<and> toLowerCase (QualifiedApiName def) \<notin> existingNames)"

definition lowerNames :: "ResultRow list \<Rightarrow> string list" where
  "lowerNames rows = map (\<lambda>r. toLowerCase (FieldName r)) rows"

subsection \<open>Sample inputs\<close>

definition exampleStringify :: "xnode \<Rightarrow> string" where
  "exampleStringify n = ''{}''"

definition exampleMaps :: fieldsMaps where
  "exampleMaps =
     \<lparr> apex = [], flow = [], vr = [], dup = [], report = [], email = [],
       layout = [(''Case-Layout.layout-meta.xml'', ''<field>Priority__c</field>'')],
       recordType = [], flexipage = [], lwc = Some [], aura = Some [],
       profiles = Some [(''Admin.profile-meta.xml'', ''<field>Case.AccountBalance__c</field>'')],
       permsets = Some [],
       lastModified = [] \<rparr>"

definition exampleField :: xnode where
  "exampleField =
     XElem [(''fullName'', [XText ''Priority__c'']),
            (''type'', [XText ''Picklist'']),
            (''valueSet'',
               [XElem [(''controllingField'', [XText ''Type'']),
                       (''valueSetDefinition'',
                          [XElem [(''value'',
                                     [XElem [(''fullName'', [XText ''High''])],
                                      XElem [(''fullName'', [XText ''Low''])]])]])]])]"

definition exampleDoc :: xdoc where
  "exampleDoc = Some (''CustomField'', exampleField)"

definition balanceField :: xnode where
  "balanceField =
     XElem [(''fullName'', [XText ''Balance__c'']), (''type'', [XText ''Currency'']),
            (''precision'', [XText ''18'']), (''scale'', [XText ''2'']),
            (''length'', [XText ''255''])]"

definition balanceDoc :: xdoc where
  "balanceDoc = Some (''CustomField'', balanceField)"

definition rootlessDoc :: xdoc where
  "rootlessDoc = Some (''Workflow'', XElem [])"

definition balanceDef :: fieldDef where
  "balanceDef = \<lparr> QualifiedApiName = ''Balance__c'', DataType = ''Currency'' \<rparr>"

definition nameDef :: fieldDef where
  "nameDef = \<lparr> QualifiedApiName = ''Name'', DataType = ''Text'' \<rparr>"

definition unnamedDef :: fieldDef where
  "unnamedDef = \<lparr> QualifiedApiName = [], DataType = ''Text'' \<rparr>"

section \<open>The usage matcher is whole-word, case-insensitive matching\<close>

subsection \<open>The pattern built from an identifier\<close>

lemma b_not_syntax: "CHR ''b'' \<notin> syntaxChars"
  by (simp add: syntaxChars_def backslash_def)

lemma RegExp_plain:
  "c \<notin> syntaxChars \<Longrightarrow> RegExp (c # xs) = map_option (Cons (Literal c)) (RegExp xs)"
  by (cases xs) (auto simp: syntaxChars_def)

lemma RegExp_escaped:
  "d \<in> syntaxChars \<Longrightarrow> RegExp (backslash # d # xs) = map_option (Cons (Literal d)) (RegExp xs)"
  using b_not_syntax by auto

lemma RegExp_boundary:
  "RegExp (backslash # CHR ''b'' # xs) = map_option (Cons WordBoundary) (RegExp xs)"
  by simp

text \<open>Escaping turns every character of the identifier into a literal of the pattern.\<close>

lemma RegExp_escapeRegExp:
  "RegExp (escapeRegExp f @ rest) = map_option (\<lambda>as. map Literal f @ as) (RegExp rest)"
proof (induction f)
  case Nil
  then show ?case by (simp add: escapeRegExp_def option.map_ident)
next
  case (Cons c f)
  have IH: "RegExp (escapeRegExp f @ rest) = map_option (\<lambda>as. map Literal f @ as) (RegExp rest)"
    using Cons.IH .
  show ?case
  proof (cases "c \<in> syntaxChars")
    case True
    then have "escapeRegExp (c # f) @ rest = backslash # c # (escapeRegExp f @ rest)"
      by (simp add: escapeRegExp_def)
    then show ?thesis
      using True IH by (simp add: RegExp_escaped option.map_comp comp_def del: RegExp.simps)
  next
    case False
    then have "escapeRegExp (c # f) @ rest = c # (escapeRegExp f @ rest)"
      by (simp add: escapeRegExp_def)
    then show ?thesis
      using False IH by (simp add: RegExp_plain option.map_comp comp_def del: RegExp.simps)
  qed
qed

lemma RegExp_of_identifier:
  "RegExp ([backslash, CHR ''b''] @ escapeRegExp f @ [backslash, CHR ''b''])
     = Some (WordBoundary # map Literal f @ [WordBoundary])"
  by (simp add: RegExp_escapeRegExp RegExp_boundary del: RegExp.simps(2,3))

subsection \<open>Case folding\<close>

lemma charCode_toUpperChar:
  "charCode (toUpperChar a) =
     (if 97 \<le> charCode a \<and> charCode a \<le> 122 then charCode a - 32 else charCode a)"
  unfolding toUpperChar_def charCode_def by (auto intro: mod_less)

lemma charCode_toLowerChar:
  "charCode (toLowerChar a) =
     (if 65 \<le> charCode a \<and> charCode a \<le> 90 then charCode a + 32 else charCode a)"
  unfolding toLowerChar_def charCode_def by simp

lemma charCode_inj: "charCode a = charCode b \<longleftrightarrow> a = b"
  unfolding charCode_def by simp

lemma same_canonical_form:
  "toUpperChar a = toUpperChar b \<longleftrightarrow> toLowerChar a = toLowerChar b"
proof -
  have "toUpperChar a = toUpperChar b \<longleftrightarrow> charCode (toUpperChar a) = charCode (toUpperChar b)"
    by (simp add: charCode_inj)
  also have "\<dots> \<longleftrightarrow> charCode (toLowerChar a) = charCode (toLowerChar b)"
    unfolding charCode_toUpperChar charCode_toLowerChar by (auto split: if_splits)
  also have "\<dots> \<longleftrightarrow> toLowerChar a = toLowerChar b"
    by (simp add: charCode_inj)
  finally show ?thesis .
qed

lemma same_canonical_forms:
  "map toUpperChar xs = map toUpperChar ys \<longleftrightarrow> toLowerCase xs = toLowerCase ys"
proof (induction xs arbitrary: ys)
  case Nil
  then show ?case by (simp add: toLowerCase_def)
next
  case (Cons x xs)
  then show ?case by (cases ys) (auto simp: toLowerCase_def same_canonical_form)
qed

subsection \<open>Matching at a position\<close>

lemma matchAt_literals:
  "i \<le> length s \<Longrightarrow> matchAt (map Literal f @ rest) s i \<longleftrightarrow>
     i + length f \<le> length s \<and> map toUpperChar (take (length f) (drop i s)) = map toUpperChar f
       \<and> matchAt rest s (i + length f)"
proof (induction f arbitrary: i)
  case Nil
  then show ?case by simp
next
  case (Cons c f)
  have "matchAt (map Literal (c # f) @ rest) s i \<longleftrightarrow>
          i < length s \<and> toUpperChar (s ! i) = toUpperChar c \<and> matchAt (map Literal f @ rest) s (Suc i)"
    by simp
  also have "\<dots> \<longleftrightarrow> i < length s \<and> toUpperChar (s ! i) = toUpperChar c \<and>
      Suc i + length f \<le> length s \<and> map toUpperChar (take (length f) (drop (Suc i) s)) = map toUpperChar f
       \<and> matchAt rest s (Suc i + length f)"
    using Cons.IH [of "Suc i"] by (cases "i < length s") simp_all
  also have "\<dots> \<longleftrightarrow> i + length (c # f) \<le> length s \<and>
       map toUpperChar (take (length (c # f)) (drop i s)) = map toUpperChar (c # f)
       \<and> matchAt rest s (i + length (c # f))"
  proof (cases "i < length s")
    case True
    then have "drop i s = s ! i # drop (Suc i) s"
      by (simp add: Cons_nth_drop_Suc)
    then show ?thesis by auto
  next
    case False
    then show ?thesis by simp
  qed
  finally show ?case .
qed

lemma last_take_nth:
  assumes "0 < i" "i \<le> length s"
  shows "last (take i s) = s ! (i - 1)"
proof -
  from assms have ne: "take i s \<noteq> []" by auto
  have "last (take i s) = take i s ! (length (take i s) - 1)"
    using ne by (rule last_conv_nth)
  also have "\<dots> = s ! (i - 1)"
    using assms by (simp add: min_absorb2)
  finally show ?thesis .
qed

lemma boundary_at_cut:
  "i \<le> length s \<Longrightarrow> (wordBefore s i \<noteq> wordAt s i) = wordBoundary (take i s) (drop i s)"
proof -
  assume le: "i \<le> length s"
  have before: "wordBefore s i \<longleftrightarrow> take i s \<noteq> [] \<and> isWordChar (last (take i s))"
  proof (cases "i = 0")
    case True
    then show ?thesis by (simp add: wordBefore_def)
  next
    case False
    then have "take i s \<noteq> []" using le by auto
    then show ?thesis
      using False le by (simp add: wordBefore_def last_take_nth)
  qed
  have at: "wordAt s i \<longleftrightarrow> drop i s \<noteq> [] \<and> isWordChar (hd (drop i s))"
    using le by (cases "i < length s") (auto simp: wordAt_def hd_drop_conv_nth)
  show ?thesis
    unfolding wordBoundary_def before at ..
qed

lemma test_whole_word:
  "test (WordBoundary # map Literal f @ [WordBoundary]) s = occursAsWholeWord s f"
proof
  assume "test (WordBoundary # map Literal f @ [WordBoundary]) s"
  then obtain i where "i \<in> set [0..<Suc (length s)]"
    and "matchAt (WordBoundary # map Literal f @ [WordBoundary]) s i"
    unfolding test_def by blast
  then have i: "i \<le> length s" "matchAt (WordBoundary # map Literal f @ [WordBoundary]) s i"
    by (auto simp del: matchAt.simps)
  let ?n = "length f"
  from i(2) have b1: "wordBefore s i \<noteq> wordAt s i"
    and m: "matchAt (map Literal f @ [WordBoundary]) s i"
    by simp_all
  from m i(1) have le: "i + ?n \<le> length s"
    and eq: "map toUpperChar (take ?n (drop i s)) = map toUpperChar f"
    and b2: "wordBefore s (i + ?n) \<noteq> wordAt s (i + ?n)"
    by (simp_all add: matchAt_literals)
  let ?pre = "take i s" and ?mid = "take ?n (drop i s)" and ?post = "drop (i + ?n) s"
  have split: "s = ?pre @ ?mid @ ?post"
    by (metis add.commute append_take_drop_id drop_drop)
  have "toLowerCase ?mid = toLowerCase f"
    using eq by (simp add: same_canonical_forms)
  moreover have "wordBoundary ?pre (?mid @ ?post)"
    using b1 boundary_at_cut [OF i(1)] by (metis add.commute append_take_drop_id drop_drop)
  moreover have "wordBoundary (?pre @ ?mid) ?post"
    using b2 boundary_at_cut [OF le] by (simp add: take_add)
  ultimately show "occursAsWholeWord s f"
    unfolding occursAsWholeWord_def using split by blast
next
  assume "occursAsWholeWord s f"
  then obtain pre mid post where s: "s = pre @ mid @ post"
    and eq: "toLowerCase mid = toLowerCase f"
    and b1: "wordBoundary pre (mid @ post)" and b2: "wordBoundary (pre @ mid) post"
    unfolding occursAsWholeWord_def by blast
  let ?i = "length pre"
  from eq have len: "length mid = length f"
    unfolding toLowerCase_def by (rule map_eq_imp_length_eq)
  have i: "?i \<le> length s" and le: "?i + length f \<le> length s"
    using s len by simp_all
  have "wordBefore s ?i \<noteq> wordAt s ?i"
    using b1 boundary_at_cut [OF i] s by simp
  moreover have "map toUpperChar (take (length f) (drop ?i s)) = map toUpperChar f"
    using eq s len by (simp add: same_canonical_forms)
  moreover have "wordBefore s (?i + length f) \<noteq> wordAt s (?i + length f)"
    using b2 boundary_at_cut [OF le] s len by (simp add: take_add)
  ultimately have "matchAt (WordBoundary # map Literal f @ [WordBoundary]) s ?i"
    using le i by (simp add: matchAt_literals)
  then show "test (WordBoundary # map Literal f @ [WordBoundary]) s"
    unfolding test_def using i by (auto intro!: bexI [of _ ?i])
qed

lemma containsField_eq:
  "containsField text ident = Some (text \<noteq> [] \<and> ident \<noteq> [] \<and> occursAsWholeWord text ident)"
  unfolding containsField_def Let_def
  by (simp only: RegExp_of_identifier test_whole_word option.case) simp

lemma containsField_part_of_word:
  "containsField ''AccountBalance__c field appears'' ''Balance__c'' = Some False"
  by code_simp

lemma containsField_word:
  "containsField ''The Balance__c field'' ''Balance__c'' = Some True"
  by code_simp

lemma containsField_other_case:
  "containsField ''the BALANCE__C value'' ''Balance__c'' = Some True"
  by code_simp

text \<open>
  C1. \<^verbatim>\<open>containsField(text, identifier)\<close> never fails, and it is true exactly when text and
  identifier are not empty and the identifier occurs in the text, ignoring case, with a
  word boundary on both sides. It is false on \<open>AccountBalance__c field appears\<close> and true
  on \<open>The Balance__c field\<close> and on \<open>the BALANCE__C value\<close> for the identifier
  \<open>Balance__c\<close>, and false when the text or the identifier is empty.
\<close>

theorem containsField_whole_word:
  "containsField text ident = Some (text \<noteq> [] \<and> ident \<noteq> [] \<and> occursAsWholeWord text ident)
   \<and> containsField ''AccountBalance__c field appears'' ''Balance__c'' = Some False
   \<and> containsField ''The Balance__c field'' ''Balance__c'' = Some True
   \<and> containsField ''the BALANCE__C value'' ''Balance__c'' = Some True
   \<and> containsField [] ident = Some False
   \<and> containsField text [] = Some False"
proof -
  have "containsField [] ident = Some False" and "containsField text [] = Some False"
    by (simp_all add: containsField_def)
  then show ?thesis
    using containsField_eq [of "text" "ident"] containsField_part_of_word containsField_word
      containsField_other_case
    by (simp only: simp_thms)
qed

text \<open>
  The theorem at the text \<open>The Balance__c field\<close>: the matcher's answer gives the
  occurrence as a whole word.
\<close>

theorem containsField_whole_word_witness:
  "containsField ''The Balance__c field'' ''Balance__c'' = Some True
   \<and> occursAsWholeWord ''The Balance__c field'' ''Balance__c''"
proof -
  have eq: "containsField ''The Balance__c field'' ''Balance__c''
        = Some (''The Balance__c field'' \<noteq> [] \<and> ''Balance__c'' \<noteq> []
                \<and> occursAsWholeWord ''The Balance__c field'' ''Balance__c'')"
    using containsField_whole_word [of "''The Balance__c field''" "''Balance__c''"]
    by (rule conjunct1)
  have val: "containsField ''The Balance__c field'' ''Balance__c'' = Some True"
    by code_simp
  from eq val have "occursAsWholeWord ''The Balance__c field'' ''Balance__c''"
    by simp
  with val show ?thesis ..
qed

section \<open>Properties of the field descriptor parser\<close>

subsection \<open>Reading attributes\<close>

lemma elem0_getProp: "elem0 (getProp (Some n) k) = firstElem k n"
  by (auto simp: elem0_def getProp_def firstElem_def childElems_def
      split: xnode.splits option.splits list.splits)

lemma String_js_Some: "String_js (Some x) = textOf x"
  by (simp add: String_js_def textOf_def split: xnode.splits)

lemma falsy_text: "\<not> truthy (Some x) \<Longrightarrow> textOf x = []"
  by (auto simp: truthy_def textOf_def split: xnode.splits)

lemma truthy_attr:
  "(if truthy (elem0 (getProp cf k)) then String_js (elem0 (getProp cf k)) else []) = attrText k cf"
proof (cases cf)
  case None
  then show ?thesis by (simp add: attrText_def getProp_def elem0_def truthy_def)
next
  case (Some n)
  show ?thesis
  proof (cases "firstElem k n")
    case None
    then show ?thesis using Some by (simp add: attrText_def elem0_getProp truthy_def)
  next
    case (Some x)
    then show ?thesis using \<open>cf = Some n\<close>
      by (cases "truthy (Some x)") (simp_all add: attrText_def elem0_getProp String_js_Some falsy_text)
  qed
qed

subsection \<open>The length rule\<close>

lemma trim_last: "trim s = [] \<or> \<not> isWhiteSpace (last (trim s))"
proof (cases "trim s = []")
  case True
  then show ?thesis ..
next
  case False
  let ?ys = "dropWhile isWhiteSpace (rev (dropWhile isWhiteSpace s))"
  from False have ne: "?ys \<noteq> []" by (simp add: trim_def)
  then have "\<not> isWhiteSpace (hd ?ys)" by (rule hd_dropWhile)
  moreover have "last (trim s) = hd ?ys"
    using ne by (simp add: trim_def last_rev)
  ultimately show ?thesis by simp
qed

lemma trim_not_Currency_space: "trim s \<noteq> ''Currency ''"
  using trim_last [of s] by (auto simp: isWhiteSpace_def charCode_def)

text \<open>
  C8, as the claim states it, fails: the data type \<open>Text\<close> followed by a space is none of
  the five names, and the field length is the length attribute all the same, because the
  code trims the data type before it compares.
\<close>

theorem getFieldLength_untrimmed_counterexample:
  "''Text '' \<notin> {''Text'', ''Html'', ''LongTextArea'', ''Number'', ''Currency''}
   \<and> getFieldLength (Some balanceField) ''Text '' = ''255''"
  by code_simp

text \<open>
  C8, amended. With \<open>t\<close> the data type without its leading and trailing white space:
  the field length is empty unless \<open>t\<close> is one of Text, Html, LongTextArea, Number,
  Currency, whatever attributes the document has; for Text, Html and LongTextArea it is the
  raw length attribute (empty if absent); for Number and Currency it is precision and scale
  joined by a comma and a space when both are present, the one present when only one is,
  and empty when neither is.
\<close>

theorem getFieldLength_rule:
  "getFieldLength cf dataType =
    (let t = trim dataType in
     if t \<in> {''Text'', ''Html'', ''LongTextArea''} then attrText ''length'' cf
     else if t \<in> {''Number'', ''Currency''} then
        (let p = attrText ''precision'' cf; s = attrText ''scale'' cf in
          if p \<noteq> [] \<and> s \<noteq> [] then p @ '', '' @ s else if p \<noteq> [] then p else s)
     else [])"
  unfolding getFieldLength_def Let_def truthy_attr
  using trim_not_Currency_space [of dataType] by auto

text \<open>The theorem at a currency field with precision 18 and scale 2.\<close>

theorem getFieldLength_rule_witness:
  "getFieldLength (Some balanceField) ''Currency'' = ''18, 2''"
proof -
  have "getFieldLength (Some balanceField) ''Currency'' =
    (let t = trim ''Currency'' in
     if t \<in> {''Text'', ''Html'', ''LongTextArea''} then attrText ''length'' (Some balanceField)
     else if t \<in> {''Number'', ''Currency''} then
        (let p = attrText ''precision'' (Some balanceField); s = attrText ''scale'' (Some balanceField) in
          if p \<noteq> [] \<and> s \<noteq> [] then p @ '', '' @ s else if p \<noteq> [] then p else s)
     else [])"
    by (rule getFieldLength_rule)
  also have "\<dots> = ''18, 2''"
    by code_simp
  finally show ?thesis .
qed

subsection \<open>The picklist rule\<close>

lemma names_of_values:
  "filter (\<lambda>n. n \<noteq> [])
     (map (\<lambda>v. case firstElem ''fullName'' v of None \<Rightarrow> [] | Some x \<Rightarrow> String_js (Some x)) vl)
   = concat (map (\<lambda>v. case firstElem ''fullName'' v of
                              None \<Rightarrow> []
                            | Some x \<Rightarrow> if textOf x = [] then [] else [textOf x]) vl)"
  by (induction vl) (auto simp: String_js_Some split: option.splits)

text \<open>
  C7. For a parsed field document, with \<open>vs\<close> its value set: PicklistValues is the value
  names under the value-set definition joined by a comma and a space when there are any,
  and then nothing else is consulted; otherwise it is the name of the shared value set when
  that reference exists; otherwise it is empty. ControllingField is the controlling-field
  attribute of the value set whenever it is present, whichever of the three cases gave
  PicklistValues. Without a value set both are empty.
\<close>

theorem getPicklistValues_precedence:
  "values_str (getPicklistValues (Some cf)) =
     (case firstElem ''valueSet'' cf of
        None \<Rightarrow> []
      | Some vs \<Rightarrow>
          if valueNames vs \<noteq> [] then join '', '' (valueNames vs)
          else (case valueSetNameRef vs of Some n \<Rightarrow> n | None \<Rightarrow> []))
   \<and> controlling (getPicklistValues (Some cf)) =
     (case firstElem ''valueSet'' cf of None \<Rightarrow> [] | Some vs \<Rightarrow> controllingFieldOf vs)"
proof (cases "firstElem ''valueSet'' cf")
  case None
  then show ?thesis
    by (simp add: getPicklistValues_def elem0_getProp truthy_def)
next
  case (Some vs)
  have vsEq: "elem0 (getProp (Some cf) ''valueSet'') = Some vs"
    using Some by (simp add: elem0_getProp)
  show ?thesis
  proof (cases vs)
    case (XText s)
    have none: "getProp (Some vs) k = None" for k
      using XText by (simp add: getProp_def)
    have spec: "valueNames vs = []" "valueSetNameRef vs = None" "controllingFieldOf vs = []"
      using XText by (simp_all add: valueNames_def valueSetNameRef_def
          firstElem_def childElems_def controllingFieldOf_def)
    show ?thesis
      unfolding getPicklistValues_def vsEq Let_def none using Some spec
      by (simp add: elem0_def getProp_def truthy_def)
  next
    case (XElem kvs)
    have tr: "truthy (Some vs)" using XElem by (simp add: truthy_def)
    have ctl: "(case getProp (Some vs) ''controllingField'' of None \<Rightarrow> []
                 | Some arr \<Rightarrow> String_js (elem0 (Some arr))) = controllingFieldOf vs"
      using XElem by (auto simp: getProp_def controllingFieldOf_def elem0_def String_js_def textOf_def
          split: option.splits list.splits xnode.splits)
    have nm: "(case getProp (elem0 (getProp (Some vs) ''valueSetDefinition'')) ''value'' of
                 None \<Rightarrow> []
               | Some vl \<Rightarrow> filter (\<lambda>n. n \<noteq> [])
                   (map (\<lambda>v. case elem0 (getProp (Some v) ''fullName'') of None \<Rightarrow> []
                              | Some x \<Rightarrow> String_js (Some x)) vl)) = valueNames vs"
      unfolding elem0_getProp names_of_values valueNames_def
      by (auto simp: getProp_def childElems_def split: option.splits xnode.splits)
    have vn: "(if truthy (firstElem ''valueSetName'' vs) then String_js (firstElem ''valueSetName'' vs) else [])
               = (case valueSetNameRef vs of Some n \<Rightarrow> n | None \<Rightarrow> [])"
      by (cases "firstElem ''valueSetName'' vs")
         (auto simp: valueSetNameRef_def truthy_def String_js_Some textOf_def split: xnode.splits)
    show ?thesis
      unfolding getPicklistValues_def vsEq Let_def
      unfolding ctl nm
      unfolding elem0_getProp
      using Some tr vn by (auto split: if_splits)
  qed
qed


text \<open>
  The theorem at a dependent picklist with the values High and Low and the controlling
  field Type.
\<close>

theorem getPicklistValues_precedence_witness:
  "values_str (getPicklistValues (Some exampleField)) = ''High, Low''
   \<and> controlling (getPicklistValues (Some exampleField)) = ''Type''"
proof -
  have v: "(case firstElem ''valueSet'' exampleField of
        None \<Rightarrow> []
      | Some vs \<Rightarrow>
          if valueNames vs \<noteq> [] then join '', '' (valueNames vs)
          else (case valueSetNameRef vs of Some n \<Rightarrow> n | None \<Rightarrow> [])) = ''High, Low''"
    by code_simp
  have c: "(case firstElem ''valueSet'' exampleField of None \<Rightarrow> [] | Some vs \<Rightarrow> controllingFieldOf vs)
      = ''Type''"
    by code_simp
  show ?thesis
    using getPicklistValues_precedence [of exampleField] by (simp only: v c)
qed

section \<open>Properties of the remote field merger\<close>

lemma mergeLoop_filter:
  "mergeLoop E m defs merged = merged @ map (standardRow m) (filter (kept E) defs)"
  by (induction defs arbitrary: merged) (simp_all add: Let_def kept_def)

lemma FieldName_standardRow: "FieldName (standardRow m def) = QualifiedApiName def"
  by (simp add: standardRow_def Let_def)

text \<open>The merge appends to the local rows one row for each remote pair it keeps.\<close>

lemma mergeStandardFields_filter:
  "mergeStandardFields L R m = L @ map (standardRow m) (filter (kept (set (lowerNames L))) R)"
  by (simp add: mergeStandardFields_def Let_def mergeLoop_filter lowerNames_def)

lemma mergeStandardFields_snoc:
  "mergeStandardFields L (R @ [d]) m = mergeStandardFields L R m @
     (if QualifiedApiName d = []
         \<or> (\<exists>r \<in> set L. toLowerCase (FieldName r) = toLowerCase (QualifiedApiName d))
      then [] else [standardRow m d])"
  by (auto simp: mergeStandardFields_filter kept_def lowerNames_def intro: rev_image_eqI)

lemma Status_suppresses_status:
  "mergeStandardFields [r\<lparr>FieldName := ''Status__c''\<rparr>]
       [\<lparr>QualifiedApiName = ''status__c'', DataType = t\<rparr>] m
     = [r\<lparr>FieldName := ''Status__c''\<rparr>]"
proof -
  have "toLowerCase ''status__c'' = toLowerCase ''Status__c''"
    by code_simp
  then show ?thesis
    by (simp add: mergeStandardFields_filter kept_def lowerNames_def)
qed

text \<open>
  C5, as the claim states it, fails: with no local row at all, the remote pair with the
  empty apiName matches no local FieldName, and yet no row is appended for it.
\<close>

theorem merge_empty_apiName_counterexample:
  "mergeStandardFields [] [unnamedDef] exampleMaps = []"
  by code_simp

text \<open>
  C5, amended. For every local row set and every remote pair \<open>d\<close>, after any remote pairs
  \<open>R\<close> before it: the pair contributes no row when its apiName is empty or equals,
  case-insensitively, the FieldName of some local row (local \<open>Status__c\<close> suppresses
  remote \<open>status__c\<close>); otherwise exactly one row is appended, whose FieldName is the
  apiName and FieldType the pair's dataType, whose FieldLabel, Description, Formula,
  FieldLength, LookupRef, PicklistValues, ControllingField, HistoryTracking and
  LastModifiedDate are empty, whose Required is \<open>FALSE\<close>, and whose Layouts, Flexipages,
  RecordTypes and References are computed by \<open>searchUsage\<close> and \<open>collectReferences\<close>, the
  functions used for local fields.
\<close>

theorem merge_pair:
  "mergeStandardFields L [] m = L
   \<and> mergeStandardFields L (R @ [d]) m = mergeStandardFields L R m @
       (if QualifiedApiName d = []
           \<or> (\<exists>r \<in> set L. toLowerCase (FieldName r) = toLowerCase (QualifiedApiName d))
        then []
        else [\<lparr> FieldName = QualifiedApiName d, FieldLabel = [], Description = [],
                 FieldType = DataType d, Formula = [], FieldLength = [], LookupRef = [],
                 Required = ''FALSE'', HistoryTracking = [], PicklistValues = [],
                 ControllingField = [], LastModifiedDate = [],
                 Layouts = searchUsage (layout m) (QualifiedApiName d),
                 Flexipages = searchUsage (flexipage m) (QualifiedApiName d),
                 RecordTypes = searchUsage (recordType m) (QualifiedApiName d),
                 References = collectReferences (apex m) (flow m) (vr m) (dup m) (report m)
                                (email m) (QualifiedApiName d) (lwc m) (aura m) (profiles m)
                                (permsets m),
                 ProfilesAndPermSets = profilesAndPermSets m (QualifiedApiName d) \<rparr>])
   \<and> mergeStandardFields [r\<lparr>FieldName := ''Status__c''\<rparr>]
         [\<lparr>QualifiedApiName = ''status__c'', DataType = t\<rparr>] m
       = [r\<lparr>FieldName := ''Status__c''\<rparr>]"
proof -
  have "mergeStandardFields L [] m = L"
    by (simp add: mergeStandardFields_filter)
  moreover note mergeStandardFields_snoc [of L R d m, unfolded standardRow_def Let_def]
  moreover note Status_suppresses_status [of r t m]
  ultimately show ?thesis by (intro conjI)
qed

text \<open>
  The theorem at the sample corpora: the remote pair Name of type Text, with no local
  rows, gives one row.
\<close>

theorem merge_pair_witness:
  "mergeStandardFields [] ([] @ [nameDef]) exampleMaps =
     [\<lparr> FieldName = ''Name'', FieldLabel = [], Description = [], FieldType = ''Text'',
         Formula = [], FieldLength = [], LookupRef = [], Required = ''FALSE'',
         HistoryTracking = [], PicklistValues = [], ControllingField = [],
         LastModifiedDate = [], Layouts = [], Flexipages = [], RecordTypes = [],
         References = [], ProfilesAndPermSets = [] \<rparr>]"
proof -
  let ?d = "nameDef" and ?m = "exampleMaps"
  have "mergeStandardFields [] ([] @ [?d]) ?m = mergeStandardFields [] [] ?m @
       (if QualifiedApiName ?d = []
           \<or> (\<exists>r \<in> set ([] :: ResultRow list).
                 toLowerCase (FieldName r) = toLowerCase (QualifiedApiName ?d))
        then []
        else [\<lparr> FieldName = QualifiedApiName ?d, FieldLabel = [], Description = [],
                 FieldType = DataType ?d, Formula = [], FieldLength = [], LookupRef = [],
                 Required = ''FALSE'', HistoryTracking = [], PicklistValues = [],
                 ControllingField = [], LastModifiedDate = [],
                 Layouts = searchUsage (layout ?m) (QualifiedApiName ?d),
                 Flexipages = searchUsage (flexipage ?m) (QualifiedApiName ?d),
                 RecordTypes = searchUsage (recordType ?m) (QualifiedApiName ?d),
                 References = collectReferences (apex ?m) (flow ?m) (vr ?m) (dup ?m) (report ?m)
                                (email ?m) (QualifiedApiName ?d) (lwc ?m) (aura ?m) (profiles ?m)
                                (permsets ?m),
                 ProfilesAndPermSets = profilesAndPermSets ?m (QualifiedApiName ?d) \<rparr>])"
    by (rule merge_pair [of "[]" ?m "[]" ?d, THEN conjunct2, THEN conjunct1])
  also have "\<dots> = [\<lparr> FieldName = ''Name'', FieldLabel = [], Description = [], FieldType = ''Text'',
         Formula = [], FieldLength = [], LookupRef = [], Required = ''FALSE'',
         HistoryTracking = [], PicklistValues = [], ControllingField = [],
         LastModifiedDate = [], Layouts = [], Flexipages = [], RecordTypes = [],
         References = [], ProfilesAndPermSets = [] \<rparr>]"
    by code_simp
  finally show ?thesis .
qed

text \<open>
  C6. Merging the same remote inventory into the result of a first merge gives the result
  of the first merge: the second merge appends nothing.
\<close>

theorem merge_idempotent:
  "mergeStandardFields (mergeStandardFields L R m) R m = mergeStandardFields L R m"
proof -
  let ?M = "mergeStandardFields L R m"
  have "\<not> kept (set (lowerNames ?M)) d" if "d \<in> set R" for d
  proof (cases "kept (set (lowerNames L)) d")
    case True
    then have "standardRow m d \<in> set ?M"
      using that by (simp add: mergeStandardFields_filter)
    then have "toLowerCase (FieldName (standardRow m d)) \<in> set (lowerNames ?M)"
      unfolding lowerNames_def by (simp only: set_map) (rule imageI)
    then show ?thesis
      by (simp add: kept_def FieldName_standardRow)
  next
    case False
    moreover have "set (lowerNames L) \<subseteq> set (lowerNames ?M)"
      by (auto simp: mergeStandardFields_filter lowerNames_def)
    ultimately show ?thesis by (auto simp: kept_def)
  qed
  then have "filter (kept (set (lowerNames ?M))) R = []"
    by (simp add: filter_empty_conv)
  then show ?thesis
    by (subst mergeStandardFields_filter) simp
qed

text \<open>
  The theorem at the sample corpora, for an inventory that lists Name twice and has a pair
  without a name.
\<close>

theorem merge_idempotent_witness:
  "mergeStandardFields (mergeStandardFields [] [nameDef, unnamedDef, nameDef] exampleMaps)
       [nameDef, unnamedDef, nameDef] exampleMaps
     = mergeStandardFields [] [nameDef, unnamedDef, nameDef] exampleMaps"
  by (rule merge_idempotent)

text \<open>
  C10. The output of the merge begins with the local rows, unchanged and in their order;
  every row after them is the row synthesized for a remote pair with a non-empty apiName;
  and a remote pair whose apiName is empty contributes no row.
\<close>

theorem merge_keeps_local_rows:
  "take (length L) (mergeStandardFields L R m) = L
   \<and> set (drop (length L) (mergeStandardFields L R m))
        \<subseteq> standardRow m ` {d \<in> set R. QualifiedApiName d \<noteq> []}
   \<and> mergeStandardFields L (R1 @ [d\<lparr>QualifiedApiName := []\<rparr>] @ R2) m
        = mergeStandardFields L (R1 @ R2) m"
  by (auto simp: mergeStandardFields_filter kept_def)

text \<open>
  The theorem at a local row for Balance__c and an inventory with a new pair and a pair
  without a name.
\<close>

theorem merge_keeps_local_rows_witness:
  "take (length [standardRow exampleMaps balanceDef])
     (mergeStandardFields [standardRow exampleMaps balanceDef] [nameDef, unnamedDef] exampleMaps)
     = [standardRow exampleMaps balanceDef]
   \<and> mergeStandardFields [standardRow exampleMaps balanceDef]
        ([nameDef] @ [unnamedDef\<lparr>QualifiedApiName := []\<rparr>] @ []) exampleMaps
        = mergeStandardFields [standardRow exampleMaps balanceDef] ([nameDef] @ []) exampleMaps"
  using merge_keeps_local_rows [of "[standardRow exampleMaps balanceDef]" "[nameDef, unnamedDef]"
      exampleMaps "[nameDef]" unnamedDef "[]"]
  by blast

text \<open>
  When the remote list names no field twice, the merged names are as distinct as the
  local ones.
\<close>

lemma merge_distinct_remote_names:
  assumes local: "distinct (lowerNames L)"
    and remote: "distinct (map (\<lambda>d. toLowerCase (QualifiedApiName d))
                    (filter (\<lambda>d. QualifiedApiName d \<noteq> []) R))"
  shows "distinct (lowerNames (mergeStandardFields L R m))"
proof -
  let ?E = "set (lowerNames L)"
  let ?K = "filter (kept ?E) R"
  have K: "?K = filter (\<lambda>d. toLowerCase (QualifiedApiName d) \<notin> ?E)
                  (filter (\<lambda>d. QualifiedApiName d \<noteq> []) R)"
    by (simp add: conj_commute) (simp add: kept_def conj_commute cong: filter_cong)
  have names: "lowerNames (mergeStandardFields L R m)
      = lowerNames L @ map (\<lambda>d. toLowerCase (QualifiedApiName d)) ?K"
    by (simp add: mergeStandardFields_filter lowerNames_def FieldName_standardRow comp_def)
  have "distinct (map (\<lambda>d. toLowerCase (QualifiedApiName d)) ?K)"
    unfolding K using remote by (rule distinct_map_filter)
  moreover have "?E \<inter> set (map (\<lambda>d. toLowerCase (QualifiedApiName d)) ?K) = {}"
    by (auto simp: kept_def)
  ultimately show ?thesis
    unfolding names using local by simp
qed

text \<open>
  C4, the code on a remote list that names a field twice: with no local rows, the merged
  rows carry the name twice, so the FieldName values are not distinct.
\<close>

theorem merge_duplicate_remote_names:
  "distinct (lowerNames [])
   \<and> map FieldName (mergeStandardFields [] [nameDef, nameDef] exampleMaps) = [''Name'', ''Name'']
   \<and> \<not> distinct (lowerNames (mergeStandardFields [] [nameDef, nameDef] exampleMaps))"
  by code_simp

section \<open>Properties of the result assembler\<close>

subsection \<open>The loop over the field files\<close>

lemma processLoop_append:
  "processLoop st m (pre @ rest) results reads =
     (case processLoop st m pre results reads of
        (Inl e, n) \<Rightarrow> (Inl e, n)
      | (Inr rs, n) \<Rightarrow> processLoop st m rest rs n)"
proof (induction pre arbitrary: results reads)
  case Nil
  then show ?case by simp
next
  case (Cons f pre)
  show ?case
  proof (cases f)
    case Unreadable
    then show ?thesis by simp
  next
    case Malformed
    then show ?thesis by simp
  next
    case (Parsed xml)
    then show ?thesis
      using Cons.IH by (simp add: Let_def split: sum.splits)
  qed
qed

text \<open>The rows do not depend on the count of files read.\<close>

lemma processLoop_rows_any_count:
  "fst (processLoop st m files results reads) = fst (processLoop st m files results reads')"
proof (induction files arbitrary: results reads reads')
  case Nil
  then show ?case by simp
next
  case (Cons f files)
  show ?case
  proof (cases f)
    case (Parsed xml)
    show ?thesis
    proof (cases "truthy (customFieldOf xml)")
      case True
      then show ?thesis using Parsed Cons.IH [of _ "Suc reads" "Suc reads'"]
        by (simp add: Let_def split: sum.splits)
    next
      case False
      then show ?thesis using Parsed Cons.IH [of results "Suc reads" "Suc reads'"]
        by (simp add: Let_def)
    qed
  qed simp_all
qed

lemma processLoop_skip:
  assumes "\<not> truthy (customFieldOf xml)"
  shows "fst (processLoop st m (pre @ [Parsed xml] @ post) results reads)
       = fst (processLoop st m (pre @ post) results reads)"
proof (cases "processLoop st m pre results reads")
  case (Pair r n)
  show ?thesis
  proof (cases r)
    case (Inl e)
    then show ?thesis using Pair by (simp add: processLoop_append)
  next
    case (Inr rs)
    have "fst (processLoop st m (Parsed xml # post) rs n) = fst (processLoop st m post rs (Suc n))"
      using assms by (simp add: Let_def)
    also have "\<dots> = fst (processLoop st m post rs n)"
      by (rule processLoop_rows_any_count)
    finally show ?thesis using Pair Inr by (simp add: processLoop_append)
  qed
qed

lemma processLoop_malformed:
  "fst (processLoop st m (pre @ [Malformed] @ post) results reads)
     = (case fst (processLoop st m pre results reads) of
          Inl e \<Rightarrow> Inl e
        | Inr rows \<Rightarrow> Inl ParseError)"
proof (cases "processLoop st m pre results reads")
  case (Pair r n)
  then show ?thesis by (cases r) (simp_all add: processLoop_append)
qed

subsection \<open>Documents that cannot be used\<close>

text \<open>
  C2, as the claim states it, fails: the sample document alone gives its row, and in a
  batch with a document that cannot be parsed the call fails with the parse error and
  gives no row at all.
\<close>

theorem processFields_malformed_counterexample:
  "map_sum id (map FieldName)
     (fst (processFields exampleStringify True ''fields'' [Parsed exampleDoc] exampleMaps))
     = Inr [''Priority__c'']
   \<and> fst (processFields exampleStringify True ''fields'' [Malformed, Parsed exampleDoc] exampleMaps)
     = Inl ParseError"
  by code_simp

text \<open>
  The test \<^verbatim>\<open>if (!cf) continue\<close> holds for a parse result that is \<^verbatim>\<open>null\<close>, that has another
  root element, or whose root \<open>CustomField\<close> is the empty string; a root that is an
  object, even one without child elements, and a root with text do not pass it.
\<close>

lemma no_customField_iff:
  "\<not> truthy (customFieldOf xml) \<longleftrightarrow>
     xml = None \<or> (\<exists>root node. xml = Some (root, node)
                      \<and> (root \<noteq> ''CustomField'' \<or> node = XText []))"
  by (cases xml) (auto simp: truthy_def customFieldOf_def split: xnode.splits if_splits)

text \<open>
  C2, amended. In the result assembler, for every batch of field-definition documents, a
  document that parses but whose parse result has no \<open>CustomField\<close> root, or whose
  \<open>CustomField\<close> root is the empty string, is recovered locally: it yields no row and
  raises no error, and the call gives what it gives for the batch of the other documents
  (no rows and no error when it is the only document). A document that cannot be parsed
  is not recovered: a batch with one gives no rows and fails, with the parser's error
  when the loop gets through the documents before it (always so when it is the first
  document), and else with the exception one of those raised.
\<close>

theorem processFields_skips_rootless:
  "(\<not> truthy (customFieldOf xml) \<longrightarrow>
      (pre @ post \<noteq> [] \<longrightarrow>
         fst (processFields st True path (pre @ [Parsed xml] @ post) m)
           = fst (processFields st True path (pre @ post) m))
      \<and> fst (processFields st True path [Parsed xml] m) = Inr [])
   \<and> fst (processFields st True path (pre @ [Malformed] @ post) m)
       = (case fst (processLoop st m pre [] 0) of
            Inl e \<Rightarrow> Inl e
          | Inr rows \<Rightarrow> Inl ParseError)
   \<and> fst (processFields st True path (Malformed # post) m) = Inl ParseError"
proof (intro conjI impI)
  assume rootless: "\<not> truthy (customFieldOf xml)"
  show "fst (processFields st True path [Parsed xml] m) = Inr []"
    using rootless by (simp add: processFields_def)
  assume "pre @ post \<noteq> []"
  then show "fst (processFields st True path (pre @ [Parsed xml] @ post) m)
           = fst (processFields st True path (pre @ post) m)"
    using rootless processLoop_skip [of xml st m pre post "[]" 0]
    by (simp add: processFields_def del: append_is_Nil_conv)
next
  show "fst (processFields st True path (pre @ [Malformed] @ post) m)
       = (case fst (processLoop st m pre [] 0) of
            Inl e \<Rightarrow> Inl e
          | Inr rows \<Rightarrow> Inl ParseError)"
    using processLoop_malformed [of st m pre post "[]" 0] by (simp add: processFields_def)
next
  show "fst (processFields st True path (Malformed # post) m) = Inl ParseError"
    by (simp add: processFields_def)
qed

text \<open>
  The theorem at the sample document in a batch with a document that has another root
  element, which gives the one row of the sample document, and in a batch with a document
  that cannot be parsed, which gives the parse error.
\<close>

theorem processFields_skips_rootless_witness:
  "\<not> truthy (customFieldOf rootlessDoc)
   \<and> [Parsed exampleDoc] @ [] \<noteq> []
   \<and> map_sum id (map FieldName)
       (fst (processFields exampleStringify True ''fields''
              ([Parsed exampleDoc] @ [Parsed rootlessDoc] @ []) exampleMaps))
       = Inr [''Priority__c'']
   \<and> fst (processFields exampleStringify True ''fields''
            ([Parsed exampleDoc] @ [Malformed] @ []) exampleMaps)
       = Inl ParseError"
proof -
  note inst = processFields_skips_rootless
    [of rootlessDoc "[Parsed exampleDoc]" "[]" exampleStringify "''fields''" exampleMaps]
  have h1: "\<not> truthy (customFieldOf rootlessDoc)"
    by code_simp
  have h2: "[Parsed exampleDoc] @ [] \<noteq> []"
    by simp
  have "fst (processFields exampleStringify True ''fields''
              ([Parsed exampleDoc] @ [Parsed rootlessDoc] @ []) exampleMaps)
        = fst (processFields exampleStringify True ''fields'' ([Parsed exampleDoc] @ []) exampleMaps)"
    using inst h1 h2 by blast
  moreover have "map_sum id (map FieldName)
       (fst (processFields exampleStringify True ''fields'' ([Parsed exampleDoc] @ []) exampleMaps))
       = Inr [''Priority__c'']"
    by code_simp
  ultimately have rows: "map_sum id (map FieldName)
       (fst (processFields exampleStringify True ''fields''
              ([Parsed exampleDoc] @ [Parsed rootlessDoc] @ []) exampleMaps))
       = Inr [''Priority__c'']"
    by (simp only:)
  have "fst (processFields exampleStringify True ''fields''
            ([Parsed exampleDoc] @ [Malformed] @ []) exampleMaps)
       = (case fst (processLoop exampleStringify exampleMaps [Parsed exampleDoc] [] 0) of
            Inl e \<Rightarrow> Inl e
          | Inr rows \<Rightarrow> Inl ParseError)"
    using inst by blast
  also have "\<dots> = Inl ParseError"
    by code_simp
  finally have err: "fst (processFields exampleStringify True ''fields''
            ([Parsed exampleDoc] @ [Malformed] @ []) exampleMaps) = Inl ParseError" .
  from h1 h2 rows err show ?thesis by (intro conjI)
qed

subsection \<open>Configuration errors\<close>

text \<open>
  C9. When the field-definitions folder does not exist the result assembler fails with the
  error that the fields folder was not found, whatever the field files are, and no file
  has been read; when the folder exists and no field file is discovered it fails with the
  error that no field files were found. In both cases the result is the error, returned at
  once, and no rows.
\<close>

theorem processFields_configuration_errors:
  "processFields st False path files m = (Inl (FieldsFolderNotFound path), 0)
   \<and> processFields st True path [] m = (Inl (NoFieldFilesFound path), 0)"
  by (simp add: processFields_def)

text \<open>The theorem at the sample corpora, with a field file that could not even be read.\<close>

theorem processFields_configuration_errors_witness:
  "processFields exampleStringify False ''objects/Case/fields'' [Unreadable, Parsed exampleDoc]
       exampleMaps
     = (Inl (FieldsFolderNotFound ''objects/Case/fields''), 0)
   \<and> processFields exampleStringify True ''objects/Case/fields'' [] exampleMaps
     = (Inl (NoFieldFilesFound ''objects/Case/fields''), 0)"
  by (rule processFields_configuration_errors)

section \<open>The access-control column\<close>

text \<open>
  C3, the code on a profile whose text has \<open>AccountBalance__c\<close> and the identifier
  \<open>Balance__c\<close>: the matcher says the profile does not contain the identifier, and the
  reference list of the merged row has no entry for the profile, but the access-control
  column has the entry for it, for the row synthesized by the merge and for the row of the
  locally declared field alike.
\<close>

theorem access_column_substring_match:
  "containsField ''<field>Case.AccountBalance__c</field>'' ''Balance__c'' = Some False
   \<and> map References (mergeStandardFields [] [balanceDef] exampleMaps) = [[]]
   \<and> map ProfilesAndPermSets (mergeStandardFields [] [balanceDef] exampleMaps)
       = [''Profile: Admin.profile-meta.xml'']
   \<and> map_sum id (map ProfilesAndPermSets)
       (fst (processFields exampleStringify True ''fields'' [Parsed balanceDoc] exampleMaps))
       = Inr [''Profile: Admin.profile-meta.xml'']"
  by code_simp

end
